theory Spec2Isabelle
  imports Main "HOL-Library.Word" "HOL-Library.Multiset"
begin

section \<open>JavaScript values used by the dictionary engine\<close>

text \<open>
  A JavaScript string is a sequence of UTF-16 code units; \<open>indexOf\<close>, \<open>slice\<close>,
  \<open>split\<close>, \<open>at\<close>, \<open>startsWith\<close> and \<open>===\<close> all work on code units.
  \<open>u16\<close> writes an ASCII literal as such a string.
\<close>

type_synonym jschar = "16 word"
type_synonym jsstring = "jschar list"

definition u16 :: "string \<Rightarrow> jsstring" where
  "u16 s = map (\<lambda>c. of_nat (of_char c)) s"

definition SPACE :: jschar where "SPACE = 0x20"
definition SLASH :: jschar where "SLASH = 0x2F"
definition NEWLINE :: jschar where "NEWLINE = 0x0A"

text \<open>\<open>s.indexOf(c)\<close> for a one-character needle: the first index, \<open>None\<close> for -1.\<close>

fun js_indexOf :: "'a \<Rightarrow> 'a list \<Rightarrow> nat option" where
  "js_indexOf c [] = None"
| "js_indexOf c (x # xs) = (if x = c then Some 0 else map_option Suc (js_indexOf c xs))"

text \<open>
  \<open>slice(start, final)\<close> of strings and arrays: a negative index counts from the
  end, both indices are clamped to the length, and an empty range gives the empty value.
\<close>

definition js_slice :: "int \<Rightarrow> int \<Rightarrow> 'a list \<Rightarrow> 'a list" where
  "js_slice start final xs =
     (let len = int (length xs);
          k = (if start < 0 then max (len + start) 0 else min start len);
          e = (if final < 0 then max (len + final) 0 else min final len)
      in if k < e then take (nat (e - k)) (drop (nat k) xs) else [])"

text \<open>\<open>s.substring(0, pos)\<close> for \<open>0 \<le> pos\<close>.\<close>

definition js_substring0 :: "nat \<Rightarrow> 'a list \<Rightarrow> 'a list" where
  "js_substring0 pos s = take pos s"

text \<open>
  \<open>s.split(c)\<close> for a one-character separator: always at least one field, the empty
  string splits into one empty field.
\<close>

fun js_split :: "'a \<Rightarrow> 'a list \<Rightarrow> 'a list list" where
  "js_split c [] = [[]]"
| "js_split c (x # xs) =
     (if x = c then [] # js_split c xs
      else (case js_split c xs of [] \<Rightarrow> [[x]] | f # fs \<Rightarrow> (x # f) # fs))"

text \<open>\<open>xs.join(sep)\<close>: the empty array joins to the empty string.\<close>

fun js_join :: "'a list \<Rightarrow> 'a list list \<Rightarrow> 'a list" where
  "js_join sep [] = []"
| "js_join sep [x] = x"
| "js_join sep (x # y # ys) = x @ sep @ js_join sep (y # ys)"

definition js_startsWith :: "'a list \<Rightarrow> 'a list \<Rightarrow> bool" where
  "js_startsWith s p = (take (length p) s = p)"

definition js_endsWith :: "'a list \<Rightarrow> 'a list \<Rightarrow> bool" where
  "js_endsWith s p = (length p \<le> length s \<and> drop (length s - length p) s = p)"

text \<open>\<open>s.at(0)\<close>: \<open>None\<close> is \<open>undefined\<close>.\<close>

definition js_at0 :: "'a list \<Rightarrow> 'a option" where
  "js_at0 s = (case s of [] \<Rightarrow> None | x # _ \<Rightarrow> Some x)"

subsection \<open>Map and Set\<close>

text \<open>
  A JavaScript \<open>Map\<close> iterates in insertion order: it is the list of its entries.
  \<open>set\<close> on a key already present replaces the value in place, \<open>set\<close> on a new
  key appends, \<open>delete\<close> removes the entry.
\<close>

type_synonym ('k, 'v) js_map = "('k \<times> 'v) list"

definition map_get :: "'k \<Rightarrow> ('k, 'v) js_map \<Rightarrow> 'v option" where
  "map_get k m = map_of m k"

fun map_set :: "'k \<Rightarrow> 'v \<Rightarrow> ('k, 'v) js_map \<Rightarrow> ('k, 'v) js_map" where
  "map_set k v [] = [(k, v)]"
| "map_set k v (e # es) = (if fst e = k then (k, v) # es else e # map_set k v es)"

definition map_delete :: "'k \<Rightarrow> ('k, 'v) js_map \<Rightarrow> ('k, 'v) js_map" where
  "map_delete k m = filter (\<lambda>e. fst e \<noteq> k) m"

text \<open>\<open>new Map(entries)\<close> sets the entries one after the other.\<close>

definition new_Map :: "('k \<times> 'v) list \<Rightarrow> ('k, 'v) js_map" where
  "new_Map es = foldl (\<lambda>m e. map_set (fst e) (snd e) m) [] es"

text \<open>
  A JavaScript \<open>Set\<close> also iterates in insertion order; \<open>add\<close> of a member already
  present changes nothing. \<open>new_Set xs\<close> is \<open>Array.from(new Set(xs))\<close>.
\<close>

definition set_add :: "'a \<Rightarrow> 'a list \<Rightarrow> 'a list" where
  "set_add x s = (if x \<in> set s then s else s @ [x])"

definition new_Set :: "'a list \<Rightarrow> 'a list" where
  "new_Set xs = foldl (\<lambda>s x. set_add x s) [] xs"

text \<open>
  \<open>xs.sort(cmp)\<close>: the sort is stable, \<open>x\<close> stays before \<open>y\<close> unless
  \<open>cmp(x, y) > 0\<close>.
\<close>

fun sort_insert :: "('a \<Rightarrow> 'a \<Rightarrow> int) \<Rightarrow> 'a \<Rightarrow> 'a list \<Rightarrow> 'a list" where
  "sort_insert cmp x [] = [x]"
| "sort_insert cmp x (y # ys) =
     (if cmp x y \<le> 0 then x # y # ys else y # sort_insert cmp x ys)"

definition js_sort :: "('a \<Rightarrow> 'a \<Rightarrow> int) \<Rightarrow> 'a list \<Rightarrow> 'a list" where
  "js_sort cmp xs = foldr (sort_insert cmp) xs []"

section \<open>The user dictionary\<close>

datatype HenkanType = okuriari | okurinasi

type_synonym Table = "(jsstring, jsstring list) js_map"
type_synonym CompletionData = "(jsstring \<times> jsstring list) list"

record UserDictionary =
  okuriAri :: Table
  okuriNasi :: Table
  rank :: "(jsstring, int) js_map"
  path :: jsstring
  rankPath :: jsstring
  loadTime :: int
  cachedPrefix :: jsstring
  cachedFeed :: jsstring
  cachedCandidates :: CompletionData

text \<open>The constructor: absent arguments are fresh maps.\<close>

definition new_UserDictionary ::
  "Table option \<Rightarrow> Table option \<Rightarrow> (jsstring, int) js_map option \<Rightarrow> UserDictionary" where
  "new_UserDictionary a n r =
     \<lparr> okuriAri = (case a of None \<Rightarrow> [] | Some m \<Rightarrow> m),
       okuriNasi = (case n of None \<Rightarrow> [] | Some m \<Rightarrow> m),
       rank = (case r of None \<Rightarrow> [] | Some m \<Rightarrow> m),
       path = [], rankPath = [], loadTime = -1,
       cachedPrefix = [], cachedFeed = [], cachedCandidates = [] \<rparr>"

text \<open>\<open>type === "okuriari" ? this.#okuriAri : this.#okuriNasi\<close>, read and written.\<close>

definition target :: "HenkanType \<Rightarrow> UserDictionary \<Rightarrow> Table" where
  "target ty d = (if ty = okuriari then okuriAri d else okuriNasi d)"

definition target_update :: "HenkanType \<Rightarrow> Table \<Rightarrow> UserDictionary \<Rightarrow> UserDictionary" where
  "target_update ty t d = (if ty = okuriari then d\<lparr>okuriAri := t\<rparr> else d\<lparr>okuriNasi := t\<rparr>)"

definition getCandidate :: "UserDictionary \<Rightarrow> HenkanType \<Rightarrow> jsstring \<Rightarrow> jsstring list" where
  "getCandidate d ty word = (case map_get word (target ty d) of None \<Rightarrow> [] | Some cs \<Rightarrow> cs)"

text \<open>
  The kana table comes from \<open>kana.ts\<close>: its entries pair a romanised key with either
  the name of a function (a string) or an array of strings. \<open>kanas.length\<close> and
  \<open>kanas[0]\<close> mean the string's length and first character for the former.
\<close>

datatype KanaResult = KanaFunc jsstring | KanaArray "jsstring list"

record config =
  kanaTable :: "(jsstring \<times> KanaResult) list"
  debug :: bool
  immediatelyJisyoRW :: bool

definition kanas_length :: "KanaResult \<Rightarrow> nat" where
  "kanas_length r = (case r of KanaFunc s \<Rightarrow> length s | KanaArray a \<Rightarrow> length a)"

definition kanas_first :: "KanaResult \<Rightarrow> jsstring" where
  "kanas_first r = (case r of KanaFunc s \<Rightarrow> take 1 s | KanaArray a \<Rightarrow> (case a of [] \<Rightarrow> [] | k # _ \<Rightarrow> k))"

text \<open>The search of \<open>cacheCandidates\<close>: the entries pushed onto \<open>candidates\<close>.\<close>

definition searchCandidates :: "config \<Rightarrow> Table \<Rightarrow> jsstring \<Rightarrow> jsstring \<Rightarrow> CompletionData" where
  "searchCandidates cfg nasi prefix feed =
     (if feed \<noteq> [] then
        concat (map (\<lambda>(key, kanas).
          if js_startsWith key feed \<and> kanas_length kanas > 1
          then filter (\<lambda>entry. js_startsWith (fst entry) (prefix @ kanas_first kanas)) nasi
          else []) (kanaTable cfg))
      else filter (\<lambda>entry. js_startsWith (fst entry) prefix) nasi)"

definition cacheCandidates :: "config \<Rightarrow> jsstring \<Rightarrow> jsstring \<Rightarrow> UserDictionary \<Rightarrow> UserDictionary" where
  "cacheCandidates cfg prefix feed d =
     (if cachedPrefix d = prefix \<and> cachedFeed d = feed then d
      else d\<lparr> cachedPrefix := prefix, cachedFeed := feed,
              cachedCandidates := searchCandidates cfg (okuriNasi d) prefix feed \<rparr>)"

definition getCandidates ::
  "config \<Rightarrow> jsstring \<Rightarrow> jsstring \<Rightarrow> UserDictionary \<Rightarrow> CompletionData \<times> UserDictionary" where
  "getCandidates cfg prefix feed d =
     (let d' = cacheCandidates cfg prefix feed d in (cachedCandidates d', d'))"

text \<open>\<open>registerCandidate\<close>; \<open>now\<close> is the value of \<open>Date.now()\<close>.\<close>

definition registerCandidate ::
  "int \<Rightarrow> HenkanType \<Rightarrow> jsstring \<Rightarrow> jsstring \<Rightarrow> UserDictionary \<Rightarrow> UserDictionary" where
  "registerCandidate now ty word candidate d =
     (if candidate = [] then d
      else
        let t = target ty d;
            oldCandidate = (case map_get word t of None \<Rightarrow> [] | Some cs \<Rightarrow> cs);
            d1 = target_update ty (map_set word (new_Set (candidate # oldCandidate)) t) d
        in d1\<lparr> rank := map_set candidate now (rank d1), cachedPrefix := [] \<rparr>)"

definition purgeCandidate ::
  "HenkanType \<Rightarrow> jsstring \<Rightarrow> jsstring \<Rightarrow> UserDictionary \<Rightarrow> UserDictionary" where
  "purgeCandidate ty word candidate d =
     (let t = target ty d;
          newCandidate = filter (\<lambda>c. c \<noteq> candidate)
                           (case map_get word t of None \<Rightarrow> [] | Some cs \<Rightarrow> cs)
      in if length newCandidate > 0 then target_update ty (map_set word newCandidate t) d
         else target_update ty (map_delete word t) d)"

text \<open>
  The order the specification gives for a merged or re-registered list: every element
  stays at its first occurrence, later repetitions are dropped.
\<close>

fun first_seen :: "'a list \<Rightarrow> 'a list" where
  "first_seen [] = []"
| "first_seen (x # xs) = x # first_seen (removeAll x xs)"

section \<open>The dictionary text format\<close>

definition okuriAriMarker :: jsstring where
  "okuriAriMarker = u16 '';; okuri-ari entries.''"

definition okuriNasiMarker :: jsstring where
  "okuriNasiMarker = u16 '';; okuri-nasi entries.''"

text \<open>\<open>a[mode].set(key, value)\<close> for \<open>a = [okuriAri, okuriNasi]\<close>.\<close>

definition table_set :: "int \<Rightarrow> jsstring \<Rightarrow> jsstring list \<Rightarrow> Table \<times> Table \<Rightarrow> Table \<times> Table" where
  "table_set mode k v a = (if mode = 0 then (map_set k v (fst a), snd a) else (fst a, map_set k v (snd a)))"

text \<open>The loop over the lines in \<open>readFile\<close>.\<close>

fun readLines :: "int \<Rightarrow> Table \<times> Table \<Rightarrow> jsstring list \<Rightarrow> Table \<times> Table" where
  "readLines mode a [] = a"
| "readLines mode a (line # lines) =
     (if line = okuriAriMarker then readLines 0 a lines
      else if line = okuriNasiMarker then readLines 1 a lines
      else if mode = -1 then readLines mode a lines
      else (case js_indexOf SPACE line of
              None \<Rightarrow> readLines mode a lines
            | Some pos \<Rightarrow>
                readLines mode
                  (table_set mode (js_substring0 pos line)
                     (js_split SLASH (js_slice (int pos + 2) (-1) line)) a)
                  lines))"

text \<open>The decoder: both tables start empty, the text is split into lines.\<close>

definition decodeJisyo :: "jsstring \<Rightarrow> Table \<times> Table" where
  "decodeJisyo text = readLines (-1) ([], []) (js_split NEWLINE text)"

text \<open>An entry's line, \<open>`${e[0]} /${e[1].join("/")}/`\<close>.\<close>

definition entryLine :: "jsstring \<times> jsstring list \<Rightarrow> jsstring" where
  "entryLine e = fst e @ u16 '' /'' @ js_join [SLASH] (snd e) @ [SLASH]"

text \<open>
  The encoder, \<open>data\<close> in \<open>writeFile\<close>. \<open>lc\<close> is \<open>String.prototype.localeCompare\<close>,
  the collation of the runtime.
\<close>

definition encodeJisyo :: "(jsstring \<Rightarrow> jsstring \<Rightarrow> int) \<Rightarrow> Table \<times> Table \<Rightarrow> jsstring" where
  "encodeJisyo lc a =
     js_join [NEWLINE]
       (concat
         [[okuriAriMarker],
          map entryLine (js_sort (\<lambda>x y. lc (fst y) (fst x)) (fst a)),
          [okuriNasiMarker],
          map entryLine (js_sort (\<lambda>x y. lc (fst x) (fst y)) (snd a)),
          [[]]])"

section \<open>Persistence\<close>

datatype error = DenoError jsstring | SyntaxError jsstring | AssertError

datatype json =
    JNull | JBool bool | JNumber int | JString jsstring
  | JArray "json list" | JObject "(jsstring \<times> json) list"

text \<open>
  The runtime the dictionary runs on: the file system \<open>'w\<close> with \<open>Deno.stat\<close> (the
  modification time of the file in milliseconds, \<open>None\<close> when the platform has none),
  \<open>Deno.readTextFile\<close> and \<open>Deno.writeTextFile\<close>, the JSON functions and the
  collation. A failing call gives the error it throws.
\<close>

record 'w runtime =
  Deno_stat :: "jsstring \<Rightarrow> 'w \<Rightarrow> error + int option"
  Deno_readTextFile :: "jsstring \<Rightarrow> 'w \<Rightarrow> error + jsstring"
  Deno_writeTextFile :: "jsstring \<Rightarrow> jsstring \<Rightarrow> 'w \<Rightarrow> error option \<times> 'w"
  JSON_parse :: "jsstring \<Rightarrow> error + json"
  JSON_stringify :: "json \<Rightarrow> jsstring"
  localeCompare :: "jsstring \<Rightarrow> jsstring \<Rightarrow> int"

datatype logmsg = LogText jsstring | LogError error

record 'w world =
  filesys :: 'w
  console :: "logmsg list"

definition console_log :: "logmsg \<Rightarrow> 'w world \<Rightarrow> 'w world" where
  "console_log m w = w\<lparr>console := console w @ [m]\<rparr>"

text \<open>\<open>assertArray(x, isString)\<close> throws unless \<open>x\<close> is an array of strings.\<close>

definition isString :: "json \<Rightarrow> bool" where
  "isString j = (case j of JString _ \<Rightarrow> True | _ \<Rightarrow> False)"

definition isArrayOfString :: "json \<Rightarrow> bool" where
  "isArrayOfString j = (case j of JArray xs \<Rightarrow> list_all isString xs | _ \<Rightarrow> False)"

definition stringsOf :: "json \<Rightarrow> jsstring list" where
  "stringsOf j = (case j of JArray xs \<Rightarrow> concat (map (\<lambda>x. case x of JString s \<Rightarrow> [s] | _ \<Rightarrow> []) xs) | _ \<Rightarrow> [])"

definition assertArray_isString :: "json \<Rightarrow> error + jsstring list" where
  "assertArray_isString j = (if isArrayOfString j then Inr (stringsOf j) else Inl AssertError)"

text \<open>
  \<open>readFile\<close>: the tables are emptied before the file is read, so they stay empty
  when the read throws. The result is the error thrown, if any, and the dictionary as
  the call leaves it.
\<close>

definition readFile ::
  "'w runtime \<Rightarrow> jsstring \<Rightarrow> jsstring \<Rightarrow> UserDictionary \<Rightarrow> 'w \<Rightarrow> error option \<times> UserDictionary" where
  "readFile rt p rp d w =
     (let d1 = d\<lparr>okuriAri := [], okuriNasi := []\<rparr> in
      case Deno_readTextFile rt p w of
        Inl e \<Rightarrow> (Some e, d1)
      | Inr text \<Rightarrow>
          let a = readLines (-1) (okuriAri d1, okuriNasi d1) (js_split NEWLINE text);
              d2 = d1\<lparr>okuriAri := fst a, okuriNasi := snd a\<rparr>
          in if rp = [] then (None, d2)
             else (case Deno_readTextFile rt rp w of
                     Inl e \<Rightarrow> (Some e, d2)
                   | Inr rtext \<Rightarrow>
                       (case JSON_parse rt rtext of
                          Inl e \<Rightarrow> (Some e, d2)
                        | Inr rankData \<Rightarrow>
                            (case assertArray_isString rankData of
                               Inl e \<Rightarrow> (Some e, d2)
                             | Inr cs \<Rightarrow>
                                 (None, d2\<lparr>rank := new_Map (zip cs (map int [0..<length cs]))\<rparr>)))))"

text \<open>
  \<open>load\<close>: the body of its \<open>try\<close> block either returns from \<open>load\<close>, runs to its
  end or throws; the \<open>catch\<close> does nothing, and the cache is invalidated unless the
  block returned.
\<close>

datatype outcome = Normal | Return | Throw error

definition load_try ::
  "'w runtime \<Rightarrow> jsstring \<Rightarrow> jsstring \<Rightarrow> UserDictionary \<Rightarrow> 'w \<Rightarrow> outcome \<times> UserDictionary" where
  "load_try rt p rp d w =
     (case Deno_stat rt p w of
        Inl e \<Rightarrow> (Throw e, d)
      | Inr mtime \<Rightarrow>
          let time = (case mtime of None \<Rightarrow> -1 | Some t \<Rightarrow> t) in
          if time = loadTime d then (Return, d)
          else (case readFile rt p rp (d\<lparr>loadTime := time\<rparr>) w of
                  (Some e, d') \<Rightarrow> (Throw e, d')
                | (None, d') \<Rightarrow> (Normal, d')))"

definition load ::
  "'w runtime \<Rightarrow> jsstring option \<Rightarrow> jsstring option \<Rightarrow> UserDictionary \<Rightarrow> 'w
     \<Rightarrow> error option \<times> UserDictionary" where
  "load rt path_arg rankPath_arg d w =
     (let p = (case path_arg of None \<Rightarrow> path d | Some x \<Rightarrow> x);
          rp = (case rankPath_arg of None \<Rightarrow> rankPath d | Some x \<Rightarrow> x);
          d1 = d\<lparr>path := p, rankPath := rp\<rparr>
      in if p \<noteq> [] then
           (case load_try rt p rp d1 w of
              (Return, d2) \<Rightarrow> (None, d2)
            | (Normal, d2) \<Rightarrow> (None, d2\<lparr>cachedPrefix := []\<rparr>)
            | (Throw e, d2) \<Rightarrow> (None, d2\<lparr>cachedPrefix := []\<rparr>))
         else (None, d1))"

text \<open>
  The text of the rank file, \<open>rankData\<close> in \<open>writeFile\<close>: the keys of the rank map,
  ascending by rank, as a JSON array.
\<close>

definition rankedCandidates :: "UserDictionary \<Rightarrow> jsstring list" where
  "rankedCandidates d = map fst (js_sort (\<lambda>a b. snd a - snd b) (rank d))"

definition rankData :: "'w runtime \<Rightarrow> UserDictionary \<Rightarrow> jsstring" where
  "rankData rt d = JSON_stringify rt (JArray (map JString (rankedCandidates d)))"

definition warning_userJisyo :: "jsstring \<Rightarrow> logmsg" where
  "warning_userJisyo p = LogText (u16 ''warning(skkeleton): can't write userJisyo to '' @ p)"

definition warning_rank :: "jsstring \<Rightarrow> logmsg" where
  "warning_rank rp = LogText (u16 ''warning(skkeleton): can't write candidate rank data to '' @ rp)"

text \<open>\<open>writeFile\<close> logs a warning and throws the error again when a write fails.\<close>

definition writeFile ::
  "'w runtime \<Rightarrow> jsstring \<Rightarrow> jsstring \<Rightarrow> UserDictionary \<Rightarrow> 'w world \<Rightarrow> error option \<times> 'w world" where
  "writeFile rt p rp d w =
     (let data = encodeJisyo (localeCompare rt) (okuriAri d, okuriNasi d) in
      case Deno_writeTextFile rt p data (filesys w) of
        (Some e, f1) \<Rightarrow> (Some e, console_log (warning_userJisyo p) (w\<lparr>filesys := f1\<rparr>))
      | (None, f1) \<Rightarrow>
          if rp = [] then (None, w\<lparr>filesys := f1\<rparr>)
          else (case Deno_writeTextFile rt rp (rankData rt d) f1 of
                  (Some e, f2) \<Rightarrow> (Some e, console_log (warning_rank rp) (w\<lparr>filesys := f2\<rparr>))
                | (None, f2) \<Rightarrow> (None, w\<lparr>filesys := f2\<rparr>)))"

text \<open>
  \<open>save\<close>: the error \<open>writeFile\<close> throws is caught, logged in debug mode, and
  \<open>save\<close> returns. The first component is the error \<open>save\<close> itself throws.
\<close>

definition save ::
  "config \<Rightarrow> 'w runtime \<Rightarrow> UserDictionary \<Rightarrow> 'w world \<Rightarrow> error option \<times> UserDictionary \<times> 'w world" where
  "save cfg rt d w =
     (if path d = [] then (None, d, w)
      else (case writeFile rt (path d) (rankPath d) d w of
              (Some e, w1) \<Rightarrow> (None, d, if debug cfg then console_log (LogError e) w1 else w1)
            | (None, w1) \<Rightarrow>
                (let stat = (case Deno_stat rt (path d) (filesys w1) of Inl _ \<Rightarrow> None | Inr m \<Rightarrow> Some m)
                 in (None,
                     d\<lparr>loadTime := (case stat of Some (Some t) \<Rightarrow> t | _ \<Rightarrow> -1)\<rparr>,
                     w1))))"

section \<open>The remote dictionary\<close>

text \<open>
  An open connection is the peer: the chunks, already decoded with the response
  encoding, that the reader yields after a request is written, until the end of the
  stream.
\<close>

record SkkServer =
  conn :: "(jsstring \<Rightarrow> jsstring list) option"

text \<open>The \<open>for await\<close> loop over the chunks, with its \<open>break\<close>.\<close>

fun readChunks :: "jsstring list \<Rightarrow> jsstring list \<Rightarrow> jsstring list" where
  "readChunks result [] = result"
| "readChunks result (str # rest) =
     (let result' = result @ (if js_at0 str = Some 0x34 then []
                              else js_slice 1 (-1) (js_split SLASH str))
      in if js_endsWith str [NEWLINE] then result' else readChunks result' rest)"

definition SkkServer_getCandidate :: "SkkServer \<Rightarrow> HenkanType \<Rightarrow> jsstring \<Rightarrow> jsstring list" where
  "SkkServer_getCandidate s ty word =
     (case conn s of
        None \<Rightarrow> []
      | Some peer \<Rightarrow> readChunks [] (peer (u16 ''1'' @ word @ u16 '' '')))"

section \<open>The library\<close>

text \<open>
  Of a dictionary the exact lookup of the library calls \<open>getCandidate\<close> only: a source
  is what that call returns.
\<close>

type_synonym Dictionary = "HenkanType \<Rightarrow> jsstring \<Rightarrow> jsstring list"

definition isDigit :: "jschar \<Rightarrow> bool" where
  "isDigit c = (0x30 \<le> c \<and> c \<le> 0x39)"

text \<open>\<open>word.replaceAll(/[0-9]+/g, "#")\<close>: every maximal run of digits becomes one \<open>#\<close>.\<close>

function replaceDigits :: "jsstring \<Rightarrow> jsstring" where
  "replaceDigits [] = []"
| "replaceDigits (c # cs) =
     (if isDigit c then 0x23 # replaceDigits (dropWhile isDigit cs) else c # replaceDigits cs)"
  by pat_completeness auto
termination
  by (relation "measure length") (auto simp: length_dropWhile_le less_Suc_eq_le)

text \<open>
  \<open>NumberConvertWrapper.getCandidate\<close>. \<open>convertNumber\<close> is only called for a word
  with digits; it formats them with \<open>JpNum.number2kanji\<close> of an external library and
  with the number conversions of the runtime, and is a parameter here.
\<close>

definition wrapDictionary :: "(jsstring \<Rightarrow> jsstring \<Rightarrow> jsstring) \<Rightarrow> Dictionary \<Rightarrow> Dictionary" where
  "wrapDictionary convertNumber inner ty word =
     (let realWord = replaceDigits word;
          candidate = inner ty realWord
      in if word = realWord then candidate
         else map (\<lambda>c. convertNumber c word) candidate)"

text \<open>
  The library holds its user dictionary and the configured sources; the first of its
  dictionaries is the wrapper around the user dictionary as it is now.
\<close>

record Library =
  userDictionary :: UserDictionary
  sources :: "Dictionary list"

definition new_Library :: "Dictionary list option \<Rightarrow> UserDictionary option \<Rightarrow> Library" where
  "new_Library ds ud =
     \<lparr> userDictionary = (case ud of None \<Rightarrow> new_UserDictionary None None None | Some d \<Rightarrow> d),
       sources = (case ds of None \<Rightarrow> [] | Some l \<Rightarrow> l) \<rparr>"

definition dictionaries :: "(jsstring \<Rightarrow> jsstring \<Rightarrow> jsstring) \<Rightarrow> Library \<Rightarrow> Dictionary list" where
  "dictionaries cn lib = wrapDictionary cn (getCandidate (userDictionary lib)) # sources lib"

definition Library_getCandidate ::
  "(jsstring \<Rightarrow> jsstring \<Rightarrow> jsstring) \<Rightarrow> Library \<Rightarrow> HenkanType \<Rightarrow> jsstring \<Rightarrow> jsstring list" where
  "Library_getCandidate cn lib ty word =
     foldl (\<lambda>merged dic. foldl (\<lambda>m c. set_add c m) merged (dic ty word)) [] (dictionaries cn lib)"

definition Library_registerCandidate ::
  "config \<Rightarrow> 'w runtime \<Rightarrow> int \<Rightarrow> HenkanType \<Rightarrow> jsstring \<Rightarrow> jsstring \<Rightarrow> Library \<Rightarrow> 'w world
     \<Rightarrow> error option \<times> Library \<times> 'w world" where
  "Library_registerCandidate cfg rt now ty word candidate lib w =
     (let d = registerCandidate now ty word candidate (userDictionary lib) in
      if immediatelyJisyoRW cfg then
        (case save cfg rt d w of (e, d', w') \<Rightarrow> (e, lib\<lparr>userDictionary := d'\<rparr>, w'))
      else (None, lib\<lparr>userDictionary := d\<rparr>, w))"

definition Library_purgeCandidate ::
  "config \<Rightarrow> 'w runtime \<Rightarrow> HenkanType \<Rightarrow> jsstring \<Rightarrow> jsstring \<Rightarrow> Library \<Rightarrow> 'w world
     \<Rightarrow> error option \<times> Library \<times> 'w world" where
  "Library_purgeCandidate cfg rt ty word candidate lib w =
     (let d = purgeCandidate ty word candidate (userDictionary lib) in
      if immediatelyJisyoRW cfg then
        (case save cfg rt d w of (e, d', w') \<Rightarrow> (e, lib\<lparr>userDictionary := d'\<rparr>, w'))
      else (None, lib\<lparr>userDictionary := d\<rparr>, w))"

section \<open>Well-formed tables and concrete inputs\<close>

text \<open>
  What the line parser guarantees of an entry: no space or newline in the key, at least
  one candidate, no slash or newline in a candidate. The keys of a table are distinct.
\<close>

definition wf_entry :: "jsstring \<times> jsstring list \<Rightarrow> bool" where
  "wf_entry e =
     (SPACE \<notin> set (fst e) \<and> NEWLINE \<notin> set (fst e) \<and> snd e \<noteq> [] \<and>
      (\<forall>c \<in> set (snd e). SLASH \<notin> set c \<and> NEWLINE \<notin> set c))"

definition wf_table :: "Table \<Rightarrow> bool" where
  "wf_table t = (distinct (map fst t) \<and> (\<forall>e \<in> set t. wf_entry e))"

text \<open>A dictionary whose entry for \<open>k\<close> repeats a candidate, as the line \<open>k /a/a/\<close> loads it.\<close>

definition dup_dictionary :: UserDictionary where
  "dup_dictionary = new_UserDictionary None (Some [(u16 ''k'', [u16 ''a'', u16 ''a''])]) None"

text \<open>An empty dictionary after \<open>test \<rightarrow> a\<close> and then \<open>test \<rightarrow> b\<close> were registered.\<close>

definition ba_dictionary :: UserDictionary where
  "ba_dictionary =
     registerCandidate 2 okurinasi (u16 ''test'') (u16 ''b'')
       (registerCandidate 1 okurinasi (u16 ''test'') (u16 ''a'') (new_UserDictionary None None None))"

text \<open>A collation to run the encoder with: the comparison of strings by code units.\<close>

fun codeUnitCompare :: "jsstring \<Rightarrow> jsstring \<Rightarrow> int" where
  "codeUnitCompare [] [] = 0"
| "codeUnitCompare [] (y # ys) = -1"
| "codeUnitCompare (x # xs) [] = 1"
| "codeUnitCompare (x # xs) (y # ys) =
     (if x < y then -1 else if y < x then 1 else codeUnitCompare xs ys)"

definition example_okuriAri :: Table where
  "example_okuriAri = [(u16 ''a'', [u16 ''x'']), (u16 ''b'', [u16 ''y'', u16 ''z''])]"

definition example_okuriNasi :: Table where
  "example_okuriNasi = [(u16 ''d'', [u16 ''1'']), (u16 ''c'', [u16 ''2''])]"


text \<open>A dictionary with the single okuri-nasi entry \<open>ab \<rightarrow> x\<close>.\<close>

definition cached_dictionary :: UserDictionary where
  "cached_dictionary = new_UserDictionary None (Some [(u16 ''ab'', [u16 ''x''])]) None"

text \<open>A configuration, and a world with nothing on the console.\<close>

definition example_config :: config where
  "example_config = \<lparr> kanaTable = [], debug = False, immediatelyJisyoRW = False \<rparr>"

text \<open>A dictionary file with one okuri-nasi entry.\<close>

definition example_jisyo :: jsstring where
  "example_jisyo = js_join [NEWLINE] [u16 '';; okuri-nasi entries.'', u16 ''k /a/'', []]"

text \<open>A runtime whose rank file holds \<open>{}\<close>, which parses to an object.\<close>

definition rank_object_runtime :: "unit runtime" where
  "rank_object_runtime =
     \<lparr> Deno_stat = (\<lambda>p w. Inr (Some 1)),
       Deno_readTextFile = (\<lambda>p w. if p = u16 ''rank.json'' then Inr (u16 ''{}'')
                                    else if p = u16 ''jisyo'' then Inr example_jisyo
                                    else Inl (DenoError p)),
       Deno_writeTextFile = (\<lambda>p data w. (None, w)),
       JSON_parse = (\<lambda>s. if s = u16 ''{}'' then Inr (JObject []) else Inl (SyntaxError s)),
       JSON_stringify = (\<lambda>j. []),
       localeCompare = codeUnitCompare \<rparr>"

text \<open>A runtime on which every write fails.\<close>

definition write_failing_runtime :: "unit runtime" where
  "write_failing_runtime =
     \<lparr> Deno_stat = (\<lambda>p w. Inr (Some 1)),
       Deno_readTextFile = (\<lambda>p w. Inl (DenoError p)),
       Deno_writeTextFile = (\<lambda>p data w. (Some (DenoError p), w)),
       JSON_parse = (\<lambda>s. Inl (SyntaxError s)),
       JSON_stringify = (\<lambda>j. []),
       localeCompare = codeUnitCompare \<rparr>"

text \<open>An empty dictionary with the path \<open>jisyo\<close> configured.\<close>

definition jisyo_dictionary :: UserDictionary where
  "jisyo_dictionary = (new_UserDictionary None None None)\<lparr>path := u16 ''jisyo''\<rparr>"

definition empty_world :: "unit world" where
  "empty_world = \<lparr> filesys = (), console = [] \<rparr>"


text \<open>\<open>SKKDictionary.getCandidate\<close>, the lookup of a static dictionary.\<close>

definition SKKDictionary_getCandidate :: "Table \<Rightarrow> Table \<Rightarrow> Dictionary" where
  "SKKDictionary_getCandidate ari nasi ty word =
     (case map_get word (if ty = okuriari then ari else nasi) of None \<Rightarrow> [] | Some cs \<Rightarrow> cs)"

text \<open>The strings of the tests that are not ASCII, by their code units.\<close>

definition tesuto :: jsstring where "tesuto = [0x3066, 0x3059, 0x3068]"
definition tesuto_katakana :: jsstring where "tesuto_katakana = [0x30C6, 0x30B9, 0x30C8]"

text \<open>The global dictionary of the tests.\<close>

definition globalJisyo :: Dictionary where
  "globalJisyo =
     SKKDictionary_getCandidate
       [([0x3066, 0x3059, 0x74], [tesuto_katakana])]
       [(tesuto, [tesuto_katakana, u16 ''test''])]"

definition jinkouchinou :: jsstring where "jinkouchinou = [0x4EBA, 0x5DE5, 0x77E5, 0x80FD]"

text \<open>The response of the server to the request for \<open>ai\<close>.\<close>

definition ai_response :: jsstring where
  "ai_response = u16 ''1/AI/'' @ jinkouchinou @ u16 ''/'' @ [NEWLINE]"


section \<open>Properties of maps and sets\<close>

lemma map_of_map_set: "map_of (map_set k v m) = (map_of m)(k \<mapsto> v)"
  by (induction m) (auto simp: fun_eq_iff)

lemma map_get_map_set: "map_get k' (map_set k v m) = (if k' = k then Some v else map_get k' m)"
  by (simp add: map_get_def map_of_map_set)

lemma map_of_map_delete: "map_of (map_delete k m) = (map_of m)(k := None)"
  by (induction m) (auto simp: map_delete_def fun_eq_iff)

lemma map_get_map_delete: "map_get k' (map_delete k m) = (if k' = k then None else map_get k' m)"
  by (simp add: map_get_def map_of_map_delete)

lemma keys_map_set: "fst ` set (map_set k v m) = insert k (fst ` set m)"
  by (induction m) auto

lemma distinct_map_set: "distinct (map fst m) \<Longrightarrow> distinct (map fst (map_set k v m))"
proof (induction m)
  case Nil
  then show ?case by simp
next
  case (Cons e es)
  have "fst ` set (map_set k v es) = insert k (fst ` set es)"
    by (rule keys_map_set)
  with Cons show ?case by auto
qed

lemma foldl_set_add:
  "foldl (\<lambda>s x. set_add x s) acc xs = acc @ first_seen (filter (\<lambda>x. x \<notin> set acc) xs)"
proof (induction xs arbitrary: acc)
  case Nil
  then show ?case by simp
next
  case (Cons x xs)
  show ?case
  proof (cases "x \<in> set acc")
    case True
    then show ?thesis using Cons [of acc] by (simp add: set_add_def)
  next
    case False
    have "removeAll x (filter (\<lambda>y. y \<notin> set acc) xs) = filter (\<lambda>y. y \<noteq> x \<and> y \<notin> set acc) xs"
      by (induction xs) auto
    then show ?thesis using False Cons [of "acc @ [x]"] by (simp add: set_add_def)
  qed
qed

lemma new_Set_first_seen: "new_Set xs = first_seen xs"
  by (simp add: new_Set_def foldl_set_add)

lemma set_first_seen: "set (first_seen xs) = set xs"
  by (induction xs rule: first_seen.induct) auto

lemma distinct_first_seen: "distinct (first_seen xs)"
  by (induction xs rule: first_seen.induct) (auto simp: set_first_seen)

lemma first_seen_distinct: "distinct xs \<Longrightarrow> first_seen xs = xs"
  by (induction xs) auto

lemma removeAll_filter_neq: "removeAll c xs = filter (\<lambda>x. x \<noteq> c) xs"
  by (induction xs) auto

section \<open>Properties of sorting\<close>

lemma mset_sort_insert: "mset (sort_insert cmp x ys) = add_mset x (mset ys)"
  by (induction ys) auto

lemma mset_js_sort: "mset (js_sort cmp xs) = mset xs"
  by (induction xs) (auto simp: js_sort_def mset_sort_insert)

lemma set_js_sort: "set (js_sort cmp xs) = set xs"
  using mset_js_sort [of cmp xs] by (metis set_mset_mset)

lemma distinct_map_js_sort: "distinct (map f (js_sort cmp xs)) = distinct (map f xs)"
proof -
  have "mset (map f (js_sort cmp xs)) = mset (map f xs)"
    by (simp add: mset_js_sort)
  then show ?thesis by (metis mset_eq_imp_distinct_iff)
qed

lemma sorted_sort_insert:
  assumes total: "\<And>a b. cmp a b \<le> 0 \<or> cmp b a \<le> 0"
    and trans: "\<And>a b c. cmp a b \<le> 0 \<Longrightarrow> cmp b c \<le> 0 \<Longrightarrow> cmp a c \<le> 0"
  shows "sorted_wrt (\<lambda>a b. cmp a b \<le> 0) ys \<Longrightarrow> sorted_wrt (\<lambda>a b. cmp a b \<le> 0) (sort_insert cmp x ys)"
proof (induction ys)
  case Nil
  then show ?case by simp
next
  case (Cons y ys)
  show ?case
  proof (cases "cmp x y \<le> 0")
    case True
    then have "\<forall>z \<in> set ys. cmp x z \<le> 0"
      using Cons.prems trans by auto
    with True Cons.prems show ?thesis by simp
  next
    case False
    then have yx: "cmp y x \<le> 0" using total [of x y] by simp
    have "set (sort_insert cmp x ys) = insert x (set ys)"
      using mset_sort_insert [of cmp x ys] by (metis set_mset_mset set_mset_add_mset_insert)
    with False yx Cons show ?thesis by auto
  qed
qed

lemma sorted_js_sort:
  assumes total: "\<And>a b. cmp a b \<le> 0 \<or> cmp b a \<le> 0"
    and trans: "\<And>a b c. cmp a b \<le> 0 \<Longrightarrow> cmp b c \<le> 0 \<Longrightarrow> cmp a c \<le> 0"
  shows "sorted_wrt (\<lambda>a b. cmp a b \<le> 0) (js_sort cmp xs)"
proof (induction xs)
  case Nil
  then show ?case by (simp add: js_sort_def)
next
  case (Cons x xs)
  have "js_sort cmp (x # xs) = sort_insert cmp x (js_sort cmp xs)"
    by (simp add: js_sort_def)
  with Cons show ?case
    using sorted_sort_insert [of cmp "js_sort cmp xs" x] total trans by metis
qed

section \<open>Properties of the string functions\<close>

lemma js_split_not_Nil: "js_split c s \<noteq> []"
  by (induction s) (auto split: list.splits)

lemma js_split_fields: "f \<in> set (js_split c s) \<Longrightarrow> c \<notin> set f \<and> set f \<subseteq> set s"
proof (induction s arbitrary: f)
  case Nil
  then show ?case by simp
next
  case (Cons x xs)
  show ?case
  proof (cases "x = c")
    case True
    with Cons show ?thesis by auto
  next
    case False
    obtain g gs where g: "js_split c xs = g # gs"
      using js_split_not_Nil [of c xs] by (cases "js_split c xs") auto
    with False Cons.prems have "f = x # g \<or> f \<in> set gs" by auto
    then show ?thesis
    proof
      assume "f = x # g"
      moreover have "c \<notin> set g \<and> set g \<subseteq> set xs" using Cons.IH [of g] g by simp
      ultimately show ?thesis using False by auto
    next
      assume "f \<in> set gs"
      then have "c \<notin> set f \<and> set f \<subseteq> set xs" using Cons.IH [of f] g by simp
      then show ?thesis by auto
    qed
  qed
qed

lemma js_split_no_sep: "c \<notin> set s \<Longrightarrow> js_split c s = [s]"
  by (induction s) auto

lemma js_split_append_sep:
  "c \<notin> set s \<Longrightarrow> js_split c (s @ c # t) = s # js_split c t"
  by (induction s) auto

lemma js_split_join:
  "fs \<noteq> [] \<Longrightarrow> \<forall>f \<in> set fs. c \<notin> set f \<Longrightarrow> js_split c (js_join [c] fs) = fs"
proof (induction "[c]" fs rule: js_join.induct)
  case 1
  then show ?case by simp
next
  case (2 x)
  then show ?case by (simp add: js_split_no_sep)
next
  case (3 x y ys)
  then show ?case by (simp add: js_split_append_sep)
qed

lemma set_js_join: "set (js_join [c] fs) \<subseteq> insert c (\<Union> (set ` set fs))"
  by (induction "[c]" fs rule: js_join.induct) auto

lemma js_indexOf_Some:
  "js_indexOf c s = Some pos \<Longrightarrow> pos < length s \<and> c \<notin> set (take pos s) \<and> s ! pos = c"
proof (induction s arbitrary: pos)
  case Nil
  then show ?case by simp
next
  case (Cons x xs)
  show ?case
  proof (cases "x = c")
    case True
    with Cons.prems show ?thesis by simp
  next
    case False
    with Cons.prems obtain q where q: "js_indexOf c xs = Some q" "pos = Suc q" by auto
    with Cons.IH [of q] False show ?thesis by simp
  qed
qed

lemma js_indexOf_append: "c \<notin> set k \<Longrightarrow> js_indexOf c (k @ c # t) = Some (length k)"
  by (induction k) auto

lemma js_slice_entry: "js_slice (int (length k) + 2) (-1) (k @ a # b # j @ [z]) = j"
proof -
  have "nat (int (length k) + 2) = length k + 2" by arith
  then show ?thesis by (simp add: js_slice_def Let_def)
qed

lemma js_slice_subset: "set (js_slice i j xs) \<subseteq> set xs"
  by (auto simp: js_slice_def Let_def dest!: in_set_takeD in_set_dropD)

lemma js_slice_middle: "js_slice 1 (-1) xs = butlast (tl xs)"
proof (cases xs)
  case Nil
  then show ?thesis by (simp add: js_slice_def)
next
  case (Cons a list)
  have "nat (int (length list) - 1) = length list - 1" by arith
  with Cons show ?thesis by (auto simp: js_slice_def Let_def butlast_conv_take)
qed


lemma target_target_update: "target ty (target_update ty t d) = t"
  by (simp add: target_def target_update_def)

lemma rank_target_update: "rank (target_update ty t d) = rank d"
  by (simp add: target_def target_update_def)

section \<open>Registering and purging candidates\<close>

text \<open>
  C3 (as amended). Registering the empty string changes nothing. Otherwise the entry of
  the key in the table the type selects becomes the candidate followed by the old list
  without the candidate, every remaining candidate kept at its first occurrence only
  (the \<open>Set\<close> collapses repetitions the old list already had); when the old list has
  no repetition this is the old list with the candidate removed. The rank of the
  candidate becomes the current time.
\<close>

theorem registerCandidate_entry:
  "registerCandidate now ty key [] d = d \<and>
   (candidate \<noteq> [] \<longrightarrow>
      getCandidate (registerCandidate now ty key candidate d) ty key =
        candidate # first_seen (filter (\<lambda>x. x \<noteq> candidate) (getCandidate d ty key)) \<and>
      map_get candidate (rank (registerCandidate now ty key candidate d)) = Some now) \<and>
   (candidate \<noteq> [] \<and> distinct (getCandidate d ty key) \<longrightarrow>
      getCandidate (registerCandidate now ty key candidate d) ty key =
        candidate # filter (\<lambda>x. x \<noteq> candidate) (getCandidate d ty key))"
proof -
  let ?old = "getCandidate d ty key"
  have noop: "registerCandidate now ty key [] d = d"
    by (simp add: registerCandidate_def)
  have entry: "getCandidate (registerCandidate now ty key candidate d) ty key =
      candidate # first_seen (filter (\<lambda>x. x \<noteq> candidate) ?old)" if "candidate \<noteq> []"
    using that
    by (simp add: registerCandidate_def getCandidate_def Let_def target_def target_update_def
        map_get_map_set new_Set_first_seen removeAll_filter_neq)
  have rk: "map_get candidate (rank (registerCandidate now ty key candidate d)) = Some now"
    if "candidate \<noteq> []"
    using that
    by (simp add: registerCandidate_def Let_def map_get_map_set)
  have "first_seen (filter (\<lambda>x. x \<noteq> candidate) ?old) = filter (\<lambda>x. x \<noteq> candidate) ?old"
    if "distinct ?old"
    using that by (simp add: first_seen_distinct)
  with noop entry rk show ?thesis by simp
qed

theorem registerCandidate_entry_witness:
  "getCandidate ba_dictionary okurinasi (u16 ''test'') = [u16 ''b'', u16 ''a''] \<and>
   getCandidate (registerCandidate 3 okurinasi (u16 ''test'') (u16 ''a'') ba_dictionary)
     okurinasi (u16 ''test'') = [u16 ''a'', u16 ''b''] \<and>
   map_get (u16 ''a'') (rank (registerCandidate 3 okurinasi (u16 ''test'') (u16 ''a'') ba_dictionary))
     = Some 3"
proof -
  have old: "getCandidate ba_dictionary okurinasi (u16 ''test'') = [u16 ''b'', u16 ''a'']"
    by (simp add: ba_dictionary_def registerCandidate_def new_UserDictionary_def getCandidate_def
        target_def target_update_def map_get_def new_Set_def set_add_def u16_def Let_def)
  have ne: "u16 ''a'' \<noteq> []" by (simp add: u16_def)
  have neq: "u16 ''b'' \<noteq> u16 ''a''" by (simp add: u16_def)
  show ?thesis
    using registerCandidate_entry [of 3 okurinasi "u16 ''test''" ba_dictionary "u16 ''a''"] ne neq
    by (simp add: old)
qed

theorem registerCandidate_filter_counterexample:
  "getCandidate (registerCandidate 1 okurinasi (u16 ''k'') (u16 ''b'') dup_dictionary)
     okurinasi (u16 ''k'')
   \<noteq> u16 ''b'' # filter (\<lambda>x. x \<noteq> u16 ''b'') (getCandidate dup_dictionary okurinasi (u16 ''k''))"
  by (simp add: dup_dictionary_def registerCandidate_def new_UserDictionary_def getCandidate_def
        target_def target_update_def map_get_def new_Set_def set_add_def u16_def Let_def)

text \<open>
  C5. Purging removes every occurrence of the candidate from the entry of the key in the
  table the type selects and keeps the other candidates in their order; the key is
  deleted when no candidate is left. Other keys and the other table are untouched.
\<close>

theorem purgeCandidate_entry:
  "map_get k (target ty (purgeCandidate ty key candidate d)) =
     (if k = key
      then (if filter (\<lambda>c. c \<noteq> candidate) (getCandidate d ty key) = [] then None
            else Some (filter (\<lambda>c. c \<noteq> candidate) (getCandidate d ty key)))
      else map_get k (target ty d)) \<and>
   okuriNasi (purgeCandidate okuriari key candidate d) = okuriNasi d \<and>
   okuriAri (purgeCandidate okurinasi key candidate d) = okuriAri d"
  by (simp add: purgeCandidate_def getCandidate_def Let_def target_def target_update_def
        map_get_map_set map_get_map_delete)

text \<open>
  C10. Purging never touches the rank map: the map is as before, and so is the text
  that \<open>writeFile\<close> writes to the rank file, the JSON array of every key of the rank
  map, a purged candidate included.
\<close>

theorem purgeCandidate_rank:
  "rank (purgeCandidate ty key candidate d) = rank d \<and>
   rankData rt (purgeCandidate ty key candidate d) = rankData rt d \<and>
   set (rankedCandidates (purgeCandidate ty key candidate d)) = fst ` set (rank d)"
proof -
  have r: "rank (purgeCandidate ty key candidate d) = rank d"
    by (simp add: purgeCandidate_def Let_def rank_target_update)
  have "set (rankedCandidates d) = fst ` set (rank d)"
    by (simp add: rankedCandidates_def set_js_sort)
  with r show ?thesis by (simp add: rankData_def rankedCandidates_def)
qed

section \<open>The codec\<close>

lemma u16_space_slash: "u16 '' /'' = [SPACE, SLASH]"
  by (simp add: u16_def SPACE_def SLASH_def)

lemma special_chars:
  "SPACE \<noteq> NEWLINE" "SLASH \<noteq> NEWLINE" "SPACE \<noteq> SLASH"
  "NEWLINE \<noteq> SPACE" "NEWLINE \<noteq> SLASH" "SLASH \<noteq> SPACE"
  by (simp_all add: SPACE_def SLASH_def NEWLINE_def)

lemma okuriAriMarker_facts:
  "NEWLINE \<notin> set okuriAriMarker" "js_indexOf SPACE okuriAriMarker = Some 2"
  "okuriAriMarker ! 3 \<noteq> SLASH" "okuriAriMarker \<noteq> []"
  by (simp_all add: okuriAriMarker_def u16_def SPACE_def SLASH_def NEWLINE_def)

lemma okuriNasiMarker_facts:
  "NEWLINE \<notin> set okuriNasiMarker" "js_indexOf SPACE okuriNasiMarker = Some 2"
  "okuriNasiMarker ! 3 \<noteq> SLASH" "okuriNasiMarker \<noteq> []" "okuriNasiMarker \<noteq> okuriAriMarker"
  by (simp_all add: okuriNasiMarker_def okuriAriMarker_def u16_def SPACE_def SLASH_def NEWLINE_def)

subsection \<open>The parser yields well-formed tables\<close>

lemma set_map_set: "set (map_set k v m) \<subseteq> insert (k, v) (set m)"
  by (induction m) auto

lemma wf_table_map_set: "wf_table m \<Longrightarrow> wf_entry (k, v) \<Longrightarrow> wf_table (map_set k v m)"
  using set_map_set [of k v m] by (auto simp: wf_table_def distinct_map_set)

lemma parsed_entry_wf:
  assumes "js_indexOf SPACE line = Some pos" and "NEWLINE \<notin> set line"
  shows "wf_entry (js_substring0 pos line, js_split SLASH (js_slice (int pos + 2) (-1) line))"
proof -
  have key: "SPACE \<notin> set (take pos line)"
    using js_indexOf_Some [OF assms(1)] by simp
  have key': "NEWLINE \<notin> set (take pos line)"
    using assms(2) by (auto dest: in_set_takeD)
  have "\<forall>c \<in> set (js_split SLASH (js_slice (int pos + 2) (-1) line)).
          SLASH \<notin> set c \<and> NEWLINE \<notin> set c"
    using js_split_fields [of _ SLASH "js_slice (int pos + 2) (-1) line"]
      js_slice_subset [of "int pos + 2" "-1" line] assms(2) by blast
  with key key' show ?thesis
    by (simp add: wf_entry_def js_substring0_def js_split_not_Nil)
qed

lemma wf_table_set:
  "wf_table (fst a) \<Longrightarrow> wf_table (snd a) \<Longrightarrow> wf_entry (k, v) \<Longrightarrow>
   wf_table (fst (table_set mode k v a)) \<and> wf_table (snd (table_set mode k v a))"
  by (simp add: table_set_def wf_table_map_set)

lemma readLines_wf:
  "\<forall>l \<in> set lines. NEWLINE \<notin> set l \<Longrightarrow> wf_table (fst a) \<Longrightarrow> wf_table (snd a) \<Longrightarrow>
   wf_table (fst (readLines mode a lines)) \<and> wf_table (snd (readLines mode a lines))"
proof (induction lines arbitrary: mode a)
  case Nil
  then show ?case by simp
next
  case (Cons line lines)
  have rest: "\<forall>l \<in> set lines. NEWLINE \<notin> set l" using Cons.prems(1) by simp
  have IH: "\<And>m b. wf_table (fst b) \<Longrightarrow> wf_table (snd b) \<Longrightarrow>
      wf_table (fst (readLines m b lines)) \<and> wf_table (snd (readLines m b lines))"
    using Cons.IH rest by blast
  show ?case
  proof (cases "js_indexOf SPACE line")
    case None
    then show ?thesis using IH Cons.prems by simp
  next
    case (Some pos)
    have "wf_entry (js_substring0 pos line, js_split SLASH (js_slice (int pos + 2) (-1) line))"
      using parsed_entry_wf [OF Some] Cons.prems(1) by simp
    then have "wf_table (fst (table_set mode (js_substring0 pos line)
                 (js_split SLASH (js_slice (int pos + 2) (-1) line)) a)) \<and>
               wf_table (snd (table_set mode (js_substring0 pos line)
                 (js_split SLASH (js_slice (int pos + 2) (-1) line)) a))"
      using wf_table_set Cons.prems by blast
    then show ?thesis using IH Cons.prems Some by simp
  qed
qed

lemma decodeJisyo_wf:
  "wf_table (fst (decodeJisyo text)) \<and> wf_table (snd (decodeJisyo text))"
proof -
  have "\<forall>l \<in> set (js_split NEWLINE text). NEWLINE \<notin> set l"
    using js_split_fields [of _ NEWLINE "text"] by blast
  then show ?thesis
    unfolding decodeJisyo_def by (rule readLines_wf) (simp_all add: wf_table_def)
qed

subsection \<open>Parsing the lines of the encoder\<close>

lemma entryLine_eq: "entryLine e = fst e @ SPACE # SLASH # js_join [SLASH] (snd e) @ [SLASH]"
  by (simp add: entryLine_def u16_space_slash)

lemma entryLine_indexOf: "wf_entry e \<Longrightarrow> js_indexOf SPACE (entryLine e) = Some (length (fst e))"
  by (simp add: entryLine_eq wf_entry_def js_indexOf_append)

lemma entryLine_key: "js_substring0 (length (fst e)) (entryLine e) = fst e"
  by (simp add: entryLine_eq js_substring0_def)

lemma entryLine_candidates:
  "wf_entry e \<Longrightarrow> js_split SLASH (js_slice (int (length (fst e)) + 2) (-1) (entryLine e)) = snd e"
  by (simp add: entryLine_eq js_slice_entry js_split_join wf_entry_def)

lemma entryLine_no_newline:
  assumes "wf_entry e"
  shows "NEWLINE \<notin> set (entryLine e)"
proof -
  have "NEWLINE \<notin> insert SLASH (\<Union> (set ` set (snd e)))"
    using assms by (auto simp: wf_entry_def special_chars)
  then have "NEWLINE \<notin> set (js_join [SLASH] (snd e))"
    using set_js_join [of SLASH "snd e"] by blast
  then show ?thesis
    using assms by (simp add: entryLine_eq wf_entry_def special_chars)
qed

lemma entryLine_not_marker:
  assumes "wf_entry e"
  shows "entryLine e \<noteq> okuriAriMarker" and "entryLine e \<noteq> okuriNasiMarker"
proof -
  have at: "entryLine e ! (length (fst e) + 1) = SLASH"
    by (simp add: entryLine_eq nth_append)
  show "entryLine e \<noteq> okuriAriMarker"
  proof
    assume eq: "entryLine e = okuriAriMarker"
    then have "length (fst e) = 2"
      using entryLine_indexOf [OF assms] okuriAriMarker_facts(2) by simp
    with at eq okuriAriMarker_facts(3) show False by simp
  qed
  show "entryLine e \<noteq> okuriNasiMarker"
  proof
    assume eq: "entryLine e = okuriNasiMarker"
    then have "length (fst e) = 2"
      using entryLine_indexOf [OF assms] okuriNasiMarker_facts(2) by simp
    with at eq okuriNasiMarker_facts(3) show False by simp
  qed
qed

lemma readLines_entryLine:
  assumes "wf_entry e" and "mode = 0 \<or> mode = 1"
  shows "readLines mode a (entryLine e # lines) =
         readLines mode (table_set mode (fst e) (snd e) a) lines"
  using assms entryLine_not_marker [OF assms(1)]
  by (auto simp: entryLine_indexOf entryLine_key entryLine_candidates)

lemma readLines_entries:
  "\<forall>e \<in> set es. wf_entry e \<Longrightarrow> mode = 0 \<or> mode = 1 \<Longrightarrow>
   readLines mode a (map entryLine es @ lines) =
   readLines mode (foldl (\<lambda>b e. table_set mode (fst e) (snd e) b) a es) lines"
proof (induction es arbitrary: a)
  case Nil
  then show ?case by simp
next
  case (Cons e es)
  then show ?case using readLines_entryLine [of e mode a] by simp
qed

lemma map_set_fresh: "k \<notin> fst ` set m \<Longrightarrow> map_set k v m = m @ [(k, v)]"
  by (induction m) auto

lemma foldl_map_set_distinct:
  "distinct (map fst (m @ es)) \<Longrightarrow> foldl (\<lambda>b e. map_set (fst e) (snd e) b) m es = m @ es"
proof (induction es arbitrary: m)
  case Nil
  then show ?case by simp
next
  case (Cons e es)
  have fresh: "fst e \<notin> fst ` set m" using Cons.prems by auto
  have "distinct (map fst ((m @ [e]) @ es))" using Cons.prems by simp
  then have "foldl (\<lambda>b e. map_set (fst e) (snd e) b) (m @ [e]) es = (m @ [e]) @ es"
    by (rule Cons.IH)
  then show ?case using map_set_fresh [OF fresh, of "snd e"] by simp
qed

lemma foldl_table_set_0:
  "foldl (\<lambda>b e. table_set 0 (fst e) (snd e) b) a es =
   (foldl (\<lambda>b e. map_set (fst e) (snd e) b) (fst a) es, snd a)"
  by (induction es arbitrary: a) (simp_all add: table_set_def)

lemma foldl_table_set_1:
  "foldl (\<lambda>b e. table_set 1 (fst e) (snd e) b) a es =
   (fst a, foldl (\<lambda>b e. map_set (fst e) (snd e) b) (snd a) es)"
  by (induction es arbitrary: a) (simp_all add: table_set_def)

lemma readLines_encoded:
  assumes "wf_table A" and "wf_table N"
  shows "readLines (-1) ([], [])
           (okuriAriMarker # map entryLine A @ okuriNasiMarker # map entryLine N @ [[]]) = (A, N)"
proof -
  have A: "\<forall>e \<in> set A. wf_entry e" "distinct (map fst ([] @ A))"
    using assms(1) by (simp_all add: wf_table_def)
  have N: "\<forall>e \<in> set N. wf_entry e" "distinct (map fst ([] @ N))"
    using assms(2) by (simp_all add: wf_table_def)
  have "readLines (-1) ([], [])
          (okuriAriMarker # map entryLine A @ okuriNasiMarker # map entryLine N @ [[]]) =
        readLines 0 ([], []) (map entryLine A @ okuriNasiMarker # map entryLine N @ [[]])"
    by simp
  also have "\<dots> = readLines 0 (A, []) (okuriNasiMarker # map entryLine N @ [[]])"
    using readLines_entries [OF A(1), of 0] foldl_map_set_distinct [OF A(2)]
    by (simp add: foldl_table_set_0)
  also have "\<dots> = readLines 1 (A, []) (map entryLine N @ [[]])"
    by (simp add: okuriNasiMarker_facts)
  also have "\<dots> = readLines 1 (A, N) [[]]"
    using readLines_entries [OF N(1), of 1] foldl_map_set_distinct [OF N(2)]
    by (simp add: foldl_table_set_1)
  also have "\<dots> = (A, N)"
    using okuriAriMarker_facts(4) okuriNasiMarker_facts(4) by (simp del: One_nat_def)
  finally show ?thesis .
qed

lemma wf_table_js_sort: "wf_table t \<Longrightarrow> wf_table (js_sort cmp t)"
  by (simp add: wf_table_def distinct_map_js_sort set_js_sort)

lemma decode_encode_wf:
  assumes "wf_table A" and "wf_table N"
  shows "decodeJisyo (encodeJisyo lc (A, N)) =
         (js_sort (\<lambda>x y. lc (fst y) (fst x)) A, js_sort (\<lambda>x y. lc (fst x) (fst y)) N)"
proof -
  let ?A = "js_sort (\<lambda>x y. lc (fst y) (fst x)) A"
  let ?N = "js_sort (\<lambda>x y. lc (fst x) (fst y)) N"
  let ?ls = "okuriAriMarker # map entryLine ?A @ okuriNasiMarker # map entryLine ?N @ [[]]"
  have wfA: "wf_table ?A" and wfN: "wf_table ?N"
    using assms by (simp_all add: wf_table_js_sort)
  have "\<forall>l \<in> set ?ls. NEWLINE \<notin> set l"
    using wfA wfN okuriAriMarker_facts(1) okuriNasiMarker_facts(1)
    by (auto simp: wf_table_def entryLine_no_newline)
  then have "js_split NEWLINE (js_join [NEWLINE] ?ls) = ?ls"
    by (intro js_split_join) simp_all
  moreover have "encodeJisyo lc (A, N) = js_join [NEWLINE] ?ls"
    by (simp add: encodeJisyo_def)
  ultimately show ?thesis
    using readLines_encoded [OF wfA wfN] by (simp add: decodeJisyo_def)
qed

lemma same_entries_map_of:
  "distinct (map fst xs) \<Longrightarrow> distinct (map fst ys) \<Longrightarrow> set xs = set ys \<Longrightarrow> map_of xs = map_of ys"
  by (simp add: map_of_inject_set)

text \<open>
  C1. Decoding the text that the encoder produces from a decoded pair of tables gives
  the same pair of tables again: the same entries in both tables, hence the same
  candidate list for every key. The tables iterate in the order the encoder wrote them
  (the first conjunct), which is the only thing that can differ from the tables encoded.
  \<open>lc\<close> is the collation of the runtime; the result holds for any.
\<close>

theorem decode_encode_decode:
  "decodeJisyo (encodeJisyo lc (decodeJisyo text)) =
     (js_sort (\<lambda>x y. lc (fst y) (fst x)) (fst (decodeJisyo text)),
      js_sort (\<lambda>x y. lc (fst x) (fst y)) (snd (decodeJisyo text))) \<and>
   mset (fst (decodeJisyo (encodeJisyo lc (decodeJisyo text)))) = mset (fst (decodeJisyo text)) \<and>
   mset (snd (decodeJisyo (encodeJisyo lc (decodeJisyo text)))) = mset (snd (decodeJisyo text)) \<and>
   map_get k (fst (decodeJisyo (encodeJisyo lc (decodeJisyo text)))) = map_get k (fst (decodeJisyo text)) \<and>
   map_get k (snd (decodeJisyo (encodeJisyo lc (decodeJisyo text)))) = map_get k (snd (decodeJisyo text))"
proof -
  obtain A N where t: "decodeJisyo text = (A, N)" by (cases "decodeJisyo text")
  have wf: "wf_table A" "wf_table N" using decodeJisyo_wf [of "text"] t by simp_all
  have rt: "decodeJisyo (encodeJisyo lc (A, N)) =
      (js_sort (\<lambda>x y. lc (fst y) (fst x)) A, js_sort (\<lambda>x y. lc (fst x) (fst y)) N)"
    by (rule decode_encode_wf [OF wf])
  have "map_of (js_sort (\<lambda>x y. lc (fst y) (fst x)) A) = map_of A"
    using wf(1) by (intro same_entries_map_of) (simp_all add: wf_table_def distinct_map_js_sort set_js_sort)
  moreover have "map_of (js_sort (\<lambda>x y. lc (fst x) (fst y)) N) = map_of N"
    using wf(2) by (intro same_entries_map_of) (simp_all add: wf_table_def distinct_map_js_sort set_js_sort)
  ultimately show ?thesis
    by (simp add: t rt mset_js_sort map_get_def)
qed


lemma codeUnitCompare_le: "codeUnitCompare a b \<le> 0 \<longleftrightarrow> lexordp_eq a b"
  by (induction a b rule: codeUnitCompare.induct) auto

lemma codeUnitCompare_total: "codeUnitCompare a b \<le> 0 \<or> codeUnitCompare b a \<le> 0"
  using lexordp_eq_linear [of a b] by (simp add: codeUnitCompare_le)

lemma codeUnitCompare_trans:
  "codeUnitCompare a b \<le> 0 \<Longrightarrow> codeUnitCompare b c \<le> 0 \<Longrightarrow> codeUnitCompare a c \<le> 0"
  using lexordp_eq_trans [of a b c] by (simp add: codeUnitCompare_le)

lemma slash_join: "SLASH # js_join [SLASH] (c # cs) = concat (map ((#) SLASH) (c # cs))"
  by (induction cs arbitrary: c) simp_all

lemma entryLine_form:
  "entryLine (k, c # cs) = k @ [SPACE] @ concat (map ((#) SLASH) (c # cs)) @ [SLASH]"
  using slash_join [of c cs] by (simp add: entryLine_eq)

text \<open>
  C4. The text the encoder writes is the okuri-ari marker line, the lines of the
  okuri-ari entries, the okuri-nasi marker line, the lines of the okuri-nasi entries and
  a final empty line, joined by newlines. Both blocks hold all entries of their table;
  the okuri-ari keys descend and the okuri-nasi keys ascend in the collation \<open>lc\<close>
  of \<open>localeCompare\<close>, a total and transitive comparison. The line of an entry is its
  key, a space, and each candidate preceded by a slash, closed by a slash.
\<close>

theorem encodeJisyo_layout:
  assumes total: "\<And>a b. lc a b \<le> 0 \<or> lc b a \<le> 0"
    and trans: "\<And>a b c. lc a b \<le> 0 \<Longrightarrow> lc b c \<le> 0 \<Longrightarrow> lc a c \<le> 0"
  shows "\<exists>A N.
      encodeJisyo lc (ari, nasi) =
        js_join [NEWLINE]
          ([okuriAriMarker] @ map entryLine A @ [okuriNasiMarker] @ map entryLine N @ [[]]) \<and>
      mset A = mset ari \<and> sorted_wrt (\<lambda>x y. lc (fst y) (fst x) \<le> 0) A \<and>
      mset N = mset nasi \<and> sorted_wrt (\<lambda>x y. lc (fst x) (fst y) \<le> 0) N \<and>
      (\<forall>k c cs. entryLine (k, c # cs) =
                  k @ [SPACE] @ concat (map ((#) SLASH) (c # cs)) @ [SLASH])"
proof -
  let ?A = "js_sort (\<lambda>x y. lc (fst y) (fst x)) ari"
  let ?N = "js_sort (\<lambda>x y. lc (fst x) (fst y)) nasi"
  have "encodeJisyo lc (ari, nasi) =
        js_join [NEWLINE]
          ([okuriAriMarker] @ map entryLine ?A @ [okuriNasiMarker] @ map entryLine ?N @ [[]])"
    by (simp add: encodeJisyo_def)
  moreover have "sorted_wrt (\<lambda>x y. lc (fst y) (fst x) \<le> 0) ?A"
    by (rule sorted_js_sort) (use total trans in blast)+
  moreover have "sorted_wrt (\<lambda>x y. lc (fst x) (fst y) \<le> 0) ?N"
    by (rule sorted_js_sort) (use total trans in blast)+
  ultimately show ?thesis
    using mset_js_sort entryLine_form by blast
qed

theorem encodeJisyo_layout_witness:
  "encodeJisyo codeUnitCompare (example_okuriAri, example_okuriNasi) =
     js_join [NEWLINE]
       [u16 '';; okuri-ari entries.'', u16 ''b /y/z/'', u16 ''a /x/'',
        u16 '';; okuri-nasi entries.'', u16 ''c /2/'', u16 ''d /1/'', []] \<and>
   (\<exists>A N.
      encodeJisyo codeUnitCompare (example_okuriAri, example_okuriNasi) =
        js_join [NEWLINE]
          ([okuriAriMarker] @ map entryLine A @ [okuriNasiMarker] @ map entryLine N @ [[]]) \<and>
      mset A = mset example_okuriAri \<and>
      sorted_wrt (\<lambda>x y. codeUnitCompare (fst y) (fst x) \<le> 0) A \<and>
      mset N = mset example_okuriNasi \<and>
      sorted_wrt (\<lambda>x y. codeUnitCompare (fst x) (fst y) \<le> 0) N \<and>
      (\<forall>k c cs. entryLine (k, c # cs) =
                  k @ [SPACE] @ concat (map ((#) SLASH) (c # cs)) @ [SLASH]))"
proof -
  have ev: "encodeJisyo codeUnitCompare (example_okuriAri, example_okuriNasi) =
     js_join [NEWLINE]
       [u16 '';; okuri-ari entries.'', u16 ''b /y/z/'', u16 ''a /x/'',
        u16 '';; okuri-nasi entries.'', u16 ''c /2/'', u16 ''d /1/'', []]"
    by (simp add: encodeJisyo_def example_okuriAri_def example_okuriNasi_def js_sort_def
        entryLine_def okuriAriMarker_def okuriNasiMarker_def u16_def SLASH_def NEWLINE_def)
  have ex: "\<exists>A N.
      encodeJisyo codeUnitCompare (example_okuriAri, example_okuriNasi) =
        js_join [NEWLINE]
          ([okuriAriMarker] @ map entryLine A @ [okuriNasiMarker] @ map entryLine N @ [[]]) \<and>
      mset A = mset example_okuriAri \<and>
      sorted_wrt (\<lambda>x y. codeUnitCompare (fst y) (fst x) \<le> 0) A \<and>
      mset N = mset example_okuriNasi \<and>
      sorted_wrt (\<lambda>x y. codeUnitCompare (fst x) (fst y) \<le> 0) N \<and>
      (\<forall>k c cs. entryLine (k, c # cs) =
                  k @ [SPACE] @ concat (map ((#) SLASH) (c # cs)) @ [SLASH])"
  proof (rule encodeJisyo_layout [of codeUnitCompare example_okuriAri example_okuriNasi])
    show "\<And>a b. codeUnitCompare a b \<le> 0 \<or> codeUnitCompare b a \<le> 0"
      by (rule codeUnitCompare_total)
    show "\<And>a b c. codeUnitCompare a b \<le> 0 \<Longrightarrow> codeUnitCompare b c \<le> 0 \<Longrightarrow>
        codeUnitCompare a c \<le> 0"
      by (rule codeUnitCompare_trans)
  qed
  from ev ex show ?thesis by (rule conjI)
qed


section \<open>The completion cache\<close>

text \<open>
  \<open>purgeCandidate\<close> leaves the three cache fields alone, while \<open>registerCandidate\<close>
  resets the cached prefix to the empty string: after it, a query with a non-empty
  prefix searches the table again. The empty prefix is the reset value itself, so a
  query for it with the cached feed still answers from the cache.
\<close>

lemma purgeCandidate_cache:
  "cachedPrefix (purgeCandidate ty key candidate d) = cachedPrefix d \<and>
   cachedFeed (purgeCandidate ty key candidate d) = cachedFeed d \<and>
   cachedCandidates (purgeCandidate ty key candidate d) = cachedCandidates d"
  by (simp add: purgeCandidate_def Let_def target_update_def)

lemma registerCandidate_invalidates:
  assumes "candidate \<noteq> []" and "prefix \<noteq> []"
  shows "fst (getCandidates cfg prefix feed (registerCandidate now ty key candidate d)) =
         searchCandidates cfg (okuriNasi (registerCandidate now ty key candidate d)) prefix feed"
  using assms
  by (auto simp: getCandidates_def cacheCandidates_def registerCandidate_def Let_def)

lemma registerCandidate_empty_prefix:
  "fst (getCandidates cfg [] []
         (registerCandidate now okurinasi (u16 ''ab'') (u16 ''y'') cached_dictionary)) = [] \<and>
   searchCandidates cfg
     (okuriNasi (registerCandidate now okurinasi (u16 ''ab'') (u16 ''y'') cached_dictionary)) [] []
     = [(u16 ''ab'', [u16 ''y'', u16 ''x''])]"
  by (simp add: getCandidates_def cacheCandidates_def registerCandidate_def searchCandidates_def
      cached_dictionary_def new_UserDictionary_def target_def target_update_def map_get_def
      new_Set_def set_add_def js_startsWith_def u16_def Let_def)

text \<open>
  C2. The cache is not invalidated by \<open>purgeCandidate\<close>: with \<open>ab \<rightarrow> x\<close> as the only
  entry, the query \<open>("ab", "")\<close> repeated after the purge of \<open>x\<close> still returns that
  entry, while the search of the table as it is after the purge finds nothing.
\<close>

theorem purgeCandidate_stale_cache:
  "fst (getCandidates cfg (u16 ''ab'') []
         (purgeCandidate okurinasi (u16 ''ab'') (u16 ''x'')
           (snd (getCandidates cfg (u16 ''ab'') [] cached_dictionary))))
     = [(u16 ''ab'', [u16 ''x''])] \<and>
   searchCandidates cfg
     (okuriNasi (purgeCandidate okurinasi (u16 ''ab'') (u16 ''x'')
                  (snd (getCandidates cfg (u16 ''ab'') [] cached_dictionary))))
     (u16 ''ab'') [] = []"
  by (simp add: getCandidates_def cacheCandidates_def purgeCandidate_def searchCandidates_def
      cached_dictionary_def new_UserDictionary_def target_def target_update_def map_get_def
      map_delete_def js_startsWith_def u16_def Let_def)

section \<open>Loading and saving\<close>

lemma load_never_throws: "fst (load rt path_arg rankPath_arg d w) = None"
  by (simp add: load_def Let_def split: prod.splits outcome.splits)

text \<open>
  C6 (as amended). With a rank path configured and a rank file that parses to something
  other than an array of strings, \<open>readFile\<close> throws the assertion error, after it has
  replaced the tables by those of the dictionary text and before it touches the rank
  map; \<open>load\<close> catches the error, invalidates the cache and returns normally.
\<close>

theorem load_catches_rank_format_error:
  assumes "p \<noteq> []" and "rp \<noteq> []"
    and "Deno_stat rt p w = Inr mtime"
    and "time = (case mtime of None \<Rightarrow> -1 | Some t \<Rightarrow> t)" and "time \<noteq> loadTime d"
    and "Deno_readTextFile rt p w = Inr text"
    and "Deno_readTextFile rt rp w = Inr rtext"
    and "JSON_parse rt rtext = Inr j" and "\<not> isArrayOfString j"
  shows "readFile rt p rp (d\<lparr>path := p, rankPath := rp, loadTime := time\<rparr>) w =
           (Some AssertError,
            d\<lparr>path := p, rankPath := rp, loadTime := time,
              okuriAri := fst (decodeJisyo text), okuriNasi := snd (decodeJisyo text)\<rparr>) \<and>
         load rt (Some p) (Some rp) d w =
           (None,
            d\<lparr>path := p, rankPath := rp, loadTime := time,
              okuriAri := fst (decodeJisyo text), okuriNasi := snd (decodeJisyo text),
              cachedPrefix := []\<rparr>)"
proof -
  have rf: "readFile rt p rp (d\<lparr>path := p, rankPath := rp, loadTime := time\<rparr>) w =
           (Some AssertError,
            d\<lparr>path := p, rankPath := rp, loadTime := time,
              okuriAri := fst (decodeJisyo text), okuriNasi := snd (decodeJisyo text)\<rparr>)"
    using assms by (simp add: readFile_def assertArray_isString_def decodeJisyo_def Let_def)
  have "load_try rt p rp (d\<lparr>path := p, rankPath := rp\<rparr>) w =
          (Throw AssertError,
            d\<lparr>path := p, rankPath := rp, loadTime := time,
              okuriAri := fst (decodeJisyo text), okuriNasi := snd (decodeJisyo text)\<rparr>)"
    using assms(3,4,5) rf by (simp add: load_try_def Let_def)
  then have "load rt (Some p) (Some rp) d w =
           (None,
            d\<lparr>path := p, rankPath := rp, loadTime := time,
              okuriAri := fst (decodeJisyo text), okuriNasi := snd (decodeJisyo text),
              cachedPrefix := []\<rparr>)"
    using assms(1) by (simp add: load_def Let_def)
  with rf show ?thesis by simp
qed

lemma decode_example_jisyo: "decodeJisyo example_jisyo = ([], [(u16 ''k'', [u16 ''a''])])"
  by (simp add: decodeJisyo_def example_jisyo_def okuriAriMarker_def okuriNasiMarker_def
      table_set_def js_substring0_def js_slice_def u16_def SPACE_def SLASH_def NEWLINE_def)

theorem load_catches_rank_format_error_witness:
  "load rank_object_runtime (Some (u16 ''jisyo'')) (Some (u16 ''rank.json''))
     (new_UserDictionary None None None) () =
   (None,
    (new_UserDictionary None None None)
      \<lparr>path := u16 ''jisyo'', rankPath := u16 ''rank.json'', loadTime := 1,
        okuriAri := [], okuriNasi := [(u16 ''k'', [u16 ''a''])], cachedPrefix := []\<rparr>)"
proof -
  have a: "u16 ''jisyo'' \<noteq> []" "u16 ''rank.json'' \<noteq> []" "u16 ''rank.json'' \<noteq> u16 ''jisyo''"
    by (simp_all add: u16_def)
  have b: "Deno_stat rank_object_runtime (u16 ''jisyo'') () = Inr (Some 1)"
    by (simp add: rank_object_runtime_def)
  have c: "(1::int) = (case Some 1 of None \<Rightarrow> -1 | Some t \<Rightarrow> t)" by simp
  have d: "(1::int) \<noteq> loadTime (new_UserDictionary None None None)"
    by (simp add: new_UserDictionary_def)
  have e: "Deno_readTextFile rank_object_runtime (u16 ''jisyo'') () = Inr example_jisyo"
    using a by (simp add: rank_object_runtime_def)
  have f: "Deno_readTextFile rank_object_runtime (u16 ''rank.json'') () = Inr (u16 ''{}'')"
    by (simp add: rank_object_runtime_def)
  have g: "JSON_parse rank_object_runtime (u16 ''{}'') = Inr (JObject [])"
    by (simp add: rank_object_runtime_def)
  have h: "\<not> isArrayOfString (JObject [])"
    by (simp add: isArrayOfString_def)
  show ?thesis
    using load_catches_rank_format_error [OF a(1) a(2) b c d e f g h]
    by (simp add: decode_example_jisyo)
qed

theorem load_rank_format_error_counterexample:
  "JSON_parse rank_object_runtime (u16 ''{}'') = Inr (JObject []) \<and>
   \<not> isArrayOfString (JObject []) \<and>
   fst (load rank_object_runtime (Some (u16 ''jisyo'')) (Some (u16 ''rank.json''))
          (new_UserDictionary None None None) ()) = None"
  by (simp add: rank_object_runtime_def isArrayOfString_def load_def Let_def
      split: prod.splits outcome.splits)

text \<open>
  C7 (as amended). When the write of the dictionary file, or after it the write of the
  rank file, fails, \<open>writeFile\<close> throws the error; \<open>save\<close> catches it, logs it in
  debug mode only and returns normally, leaving the dictionary and its recorded
  modification time as they were.
\<close>

theorem save_catches_write_failure:
  assumes "path d \<noteq> []"
    and "Deno_writeTextFile rt (path d)
           (encodeJisyo (localeCompare rt) (okuriAri d, okuriNasi d)) (filesys w) = (Some e, f1)
         \<or> (\<exists>f0. Deno_writeTextFile rt (path d)
                    (encodeJisyo (localeCompare rt) (okuriAri d, okuriNasi d)) (filesys w) = (None, f0) \<and>
                  rankPath d \<noteq> [] \<and>
                  Deno_writeTextFile rt (rankPath d) (rankData rt d) f0 = (Some e, f1))"
  shows "fst (writeFile rt (path d) (rankPath d) d w) = Some e \<and>
         save cfg rt d w =
           (None, d,
            if debug cfg then console_log (LogError e) (snd (writeFile rt (path d) (rankPath d) d w))
            else snd (writeFile rt (path d) (rankPath d) d w))"
proof -
  have wf: "fst (writeFile rt (path d) (rankPath d) d w) = Some e"
    using assms(2) by (auto simp: writeFile_def Let_def)
  then obtain w1 where "writeFile rt (path d) (rankPath d) d w = (Some e, w1)"
    by (cases "writeFile rt (path d) (rankPath d) d w") simp
  with assms(1) wf show ?thesis by (simp add: save_def)
qed

theorem save_catches_write_failure_witness:
  "save example_config write_failing_runtime jisyo_dictionary empty_world =
     (None, jisyo_dictionary,
      \<lparr> filesys = (), console = [warning_userJisyo (u16 ''jisyo'')] \<rparr>)"
proof -
  have a: "path jisyo_dictionary \<noteq> []"
    by (simp add: jisyo_dictionary_def u16_def)
  have b: "Deno_writeTextFile write_failing_runtime (path jisyo_dictionary)
           (encodeJisyo (localeCompare write_failing_runtime)
              (okuriAri jisyo_dictionary, okuriNasi jisyo_dictionary)) (filesys empty_world)
           = (Some (DenoError (u16 ''jisyo'')), ())"
    by (simp add: write_failing_runtime_def jisyo_dictionary_def)
  have c: "writeFile write_failing_runtime (path jisyo_dictionary) (rankPath jisyo_dictionary)
             jisyo_dictionary empty_world =
           (Some (DenoError (u16 ''jisyo'')),
            \<lparr> filesys = (), console = [warning_userJisyo (u16 ''jisyo'')] \<rparr>)"
    by (simp add: writeFile_def write_failing_runtime_def jisyo_dictionary_def empty_world_def
        console_log_def Let_def)
  show ?thesis
    using save_catches_write_failure [of jisyo_dictionary write_failing_runtime empty_world
        "DenoError (u16 ''jisyo'')" "()" example_config, OF a disjI1 [OF b]]
    by (simp add: c example_config_def)
qed

theorem save_write_failure_counterexample:
  "fst (Deno_writeTextFile write_failing_runtime (path jisyo_dictionary)
          (encodeJisyo (localeCompare write_failing_runtime)
             (okuriAri jisyo_dictionary, okuriNasi jisyo_dictionary)) (filesys empty_world))
     = Some (DenoError (u16 ''jisyo'')) \<and>
   fst (save example_config write_failing_runtime jisyo_dictionary empty_world) = None"
  by (simp add: save_def writeFile_def write_failing_runtime_def jisyo_dictionary_def
      u16_def Let_def split: prod.splits)


section \<open>Merging in the library\<close>

lemma foldl_foldl_concat:
  "foldl (\<lambda>m d. foldl f m (g d)) acc ds = foldl f acc (concat (map g ds))"
  by (induction ds arbitrary: acc) simp_all

lemma Library_getCandidate_first_seen:
  "Library_getCandidate cn lib ty word =
   first_seen (concat (map (\<lambda>dic. dic ty word) (dictionaries cn lib)))"
  unfolding Library_getCandidate_def foldl_foldl_concat
  using new_Set_first_seen [of "concat (map (\<lambda>dic. dic ty word) (dictionaries cn lib))"]
  by (simp add: new_Set_def)

lemma replaceDigits_tesuto: "replaceDigits tesuto = tesuto"
  by (simp add: tesuto_def isDigit_def)

lemma Library_example:
  "Library_getCandidate cn
     (fst (snd (Library_registerCandidate cfg rt now okurinasi tesuto (u16 ''test'')
                  (new_Library (Some [wrapDictionary cn globalJisyo]) None) w)))
     okurinasi tesuto = [u16 ''test'', tesuto_katakana]"
proof -
  have ne: "u16 ''test'' \<noteq> []" "tesuto_katakana \<noteq> u16 ''test''"
    by (simp_all add: u16_def tesuto_katakana_def)
  have reg: "userDictionary (fst (snd (Library_registerCandidate cfg rt now okurinasi tesuto
      (u16 ''test'') (new_Library (Some [wrapDictionary cn globalJisyo]) None) w))) =
      registerCandidate now okurinasi tesuto (u16 ''test'') (new_UserDictionary None None None)"
    using ne(1)
    by (simp add: Library_registerCandidate_def new_Library_def save_def registerCandidate_def
        new_UserDictionary_def target_update_def Let_def)
  have src: "sources (fst (snd (Library_registerCandidate cfg rt now okurinasi tesuto
      (u16 ''test'') (new_Library (Some [wrapDictionary cn globalJisyo]) None) w))) =
      [wrapDictionary cn globalJisyo]"
    by (simp add: Library_registerCandidate_def new_Library_def Let_def split: prod.splits)
  have user: "getCandidate (registerCandidate now okurinasi tesuto (u16 ''test'')
      (new_UserDictionary None None None)) okurinasi tesuto = [u16 ''test'']"
    using ne(1)
    by (simp add: registerCandidate_def new_UserDictionary_def getCandidate_def target_def
        target_update_def map_get_def new_Set_def set_add_def Let_def)
  have glob: "globalJisyo okurinasi tesuto = [tesuto_katakana, u16 ''test'']"
    by (simp add: globalJisyo_def SKKDictionary_getCandidate_def map_get_def)
  show ?thesis
    using ne(2)
    by (simp add: Library_getCandidate_first_seen dictionaries_def reg src wrapDictionary_def
        replaceDigits_tesuto user glob Let_def)
qed

text \<open>
  C8. The library asks the wrapper around its user dictionary first and then every
  configured source in the order given at construction; the result holds each
  candidate of the answers exactly once, at the place of its first occurrence in the
  answers laid end to end. With the global source of the test, registering \<open>test\<close> for
  the key puts it before the candidate of the global source.
\<close>

theorem Library_getCandidate_merge:
  "dictionaries cn lib = wrapDictionary cn (getCandidate (userDictionary lib)) # sources lib \<and>
   Library_getCandidate cn lib ty word =
     first_seen (concat (map (\<lambda>dic. dic ty word) (dictionaries cn lib))) \<and>
   distinct (Library_getCandidate cn lib ty word) \<and>
   set (Library_getCandidate cn lib ty word) =
     set (concat (map (\<lambda>dic. dic ty word) (dictionaries cn lib))) \<and>
   Library_getCandidate cn
     (fst (snd (Library_registerCandidate cfg rt now okurinasi tesuto (u16 ''test'')
                  (new_Library (Some [wrapDictionary cn globalJisyo]) None) w)))
     okurinasi tesuto = [u16 ''test'', tesuto_katakana]"
proof -
  have "dictionaries cn lib = wrapDictionary cn (getCandidate (userDictionary lib)) # sources lib"
    by (simp add: dictionaries_def)
  moreover have "distinct (Library_getCandidate cn lib ty word)"
    by (simp only: Library_getCandidate_first_seen distinct_first_seen)
  moreover have "set (Library_getCandidate cn lib ty word) =
     set (concat (map (\<lambda>dic. dic ty word) (dictionaries cn lib)))"
    by (simp only: Library_getCandidate_first_seen set_first_seen)
  ultimately show ?thesis
    using Library_getCandidate_first_seen [of cn lib ty word] Library_example [of cn cfg rt now w]
    by blast
qed

section \<open>Responses of the remote dictionary\<close>

lemma readChunks_single:
  "readChunks [] [str] =
     (if js_at0 str = Some 0x34 then [] else butlast (tl (js_split SLASH str)))"
  by (simp add: js_slice_middle Let_def)

lemma readChunks_terminated:
  "readChunks [] ((str @ [NEWLINE]) # rest) =
     (if js_at0 (str @ [NEWLINE]) = Some 0x34 then []
      else butlast (tl (js_split SLASH (str @ [NEWLINE]))))"
  by (simp add: js_slice_middle js_endsWith_def Let_def)

lemma ai_example:
  "SkkServer_getCandidate
     \<lparr>conn = Some (\<lambda>request. if request = u16 ''1ai '' then [ai_response] else [])\<rparr>
     ty (u16 ''ai'') = [u16 ''AI'', jinkouchinou]"
  by (simp add: SkkServer_getCandidate_def ai_response_def jinkouchinou_def u16_def
      js_at0_def js_slice_def js_endsWith_def SLASH_def NEWLINE_def Let_def)

text \<open>
  A response that the reader yields as one chunk, and a response line that ends in a
  newline whatever follows it: when the first character is \<open>4\<close> the result is empty,
  otherwise it is the fields between the slashes without the first and the last one.
  The response \<open>1/AI/\<dots>/\<close> to the request for \<open>ai\<close> gives its two candidates.
\<close>

lemma SkkServer_getCandidate_whole_line:
  "SkkServer_getCandidate \<lparr>conn = Some (\<lambda>request. [str])\<rparr> ty word =
     (if js_at0 str = Some 0x34 then [] else butlast (tl (js_split SLASH str))) \<and>
   SkkServer_getCandidate \<lparr>conn = Some (\<lambda>request. (str @ [NEWLINE]) # rest)\<rparr> ty word =
     (if js_at0 (str @ [NEWLINE]) = Some 0x34 then []
      else butlast (tl (js_split SLASH (str @ [NEWLINE])))) \<and>
   SkkServer_getCandidate
     \<lparr>conn = Some (\<lambda>request. if request = u16 ''1ai '' then [ai_response] else [])\<rparr>
     ty (u16 ''ai'') = [u16 ''AI'', jinkouchinou]"
  using readChunks_single [of str] readChunks_terminated [of str rest] ai_example [of ty]
  by (simp add: SkkServer_getCandidate_def)

text \<open>
  A chunk that does not end in a newline is parsed on its own and the loop goes on
  with the chunks after it: the first character test and the split at the slashes are
  applied to every chunk, never to the line the chunks make up.
\<close>

lemma readChunks_continues:
  "\<not> js_endsWith str [NEWLINE] \<Longrightarrow>
   readChunks result (str # rest) =
     readChunks (result @ (if js_at0 str = Some 0x34 then []
                           else js_slice 1 (-1) (js_split SLASH str))) rest"
  by (simp add: Let_def)

text \<open>
  C9. The loop reads chunks up to the newline, but it does not put the response line
  together: when the reader yields the line \<open>1/a/b/c/d/\<close> as the chunks \<open>1/a/b\<close> and
  \<open>/c/d/\<close> with the newline, the result is \<open>a\<close>, \<open>c\<close>, \<open>d\<close>, while the line split at
  the slashes without its first and last field is \<open>a\<close>, \<open>b\<close>, \<open>c\<close>, \<open>d\<close>.
\<close>

theorem SkkServer_getCandidate_split_line:
  "SkkServer_getCandidate
     \<lparr>conn = Some (\<lambda>request. [u16 ''1/a/b'', u16 ''/c/d/'' @ [NEWLINE]])\<rparr> ty word =
     [u16 ''a'', u16 ''c'', u16 ''d''] \<and>
   js_at0 (u16 ''1/a/b'' @ u16 ''/c/d/'' @ [NEWLINE]) \<noteq> Some 0x34 \<and>
   js_slice 1 (-1) (js_split SLASH (u16 ''1/a/b'' @ u16 ''/c/d/'' @ [NEWLINE])) =
     [u16 ''a'', u16 ''b'', u16 ''c'', u16 ''d'']"
  by (simp add: SkkServer_getCandidate_def u16_def js_at0_def js_slice_def js_endsWith_def
      SLASH_def NEWLINE_def Let_def)

end
